theory Spec2Isabelle
  imports Complex_Main "HOL-Library.Stream"
begin

section \<open>Monte Carlo pricing of a European call\<close>

text \<open>
  The two functions of \<^verbatim>\<open>docs/Performance_gottagofaster.ipynb\<close>,
  \<^verbatim>\<open>mcBScall_loop\<close> (first code cell) and \<^verbatim>\<open>mcBScall_vect\<close> (third code cell), as
  they are written for plain NumPy. Their arguments \<^verbatim>\<open>S, K, sgm, r, T\<close> are Python
  floats, given here as the real numbers they denote, and \<^verbatim>\<open>n\<close> is a Python int. The
  later cells redefine both names under \<^verbatim>\<open>@jit(nopython=True)\<close>; the compiled code has
  its own arithmetic, error model and generator and is not what is modelled.
\<close>

subsection \<open>float64 values and rounding\<close>

text \<open>
  A float64 is a finite value, an infinity or nan; the sign of zero is not represented.
  The finite values are the numbers \<open>m * 2\<^sup>e\<close> with \<open>\<bar>m\<bar> < 2\<^sup>5\<^sup>3\<close> and
  \<open>-1074 \<le> e \<le> 971\<close>. \<open>round64\<close> is rounding to nearest, ties to even: a real of
  magnitude \<open>2\<^sup>1\<^sup>0\<^sup>2\<^sup>4 - 2\<^sup>9\<^sup>7\<^sup>0\<close> or more becomes an infinity, any other real becomes the
  nearer of its two neighbours \<open>below x\<close> and \<open>above x\<close> among the finite values, and
  on a tie the neighbour whose significand is even. \<open>2\<^sup>1\<^sup>0\<^sup>2\<^sup>4\<close> stands in the grid as the
  neighbour above the largest finite value \<open>float64_max\<close>; it is never the result.
\<close>

datatype npfloat = Fin real | PInf | NInf | NaN

definition float64_finite :: "real set" where
  "float64_finite =
     (\<lambda>(m, e). real_of_int m * 2 powi e) ` ({- (2 ^ 53) <..< 2 ^ 53} \<times> {- 1074 .. 971})"

definition float64_max :: real where
  "float64_max = 2 ^ 1024 - 2 ^ 971"

definition float64_huge :: real where
  "float64_huge = 2 ^ 1024"

definition overflow_threshold :: real where
  "overflow_threshold = 2 ^ 1024 - 2 ^ 970"

definition float64_grid :: "real set" where
  "float64_grid = {- float64_huge, float64_huge} \<union> float64_finite"

definition below :: "real \<Rightarrow> real" where
  "below x = Max {f \<in> float64_grid. f \<le> x}"

definition above :: "real \<Rightarrow> real" where
  "above x = Min {f \<in> float64_grid. x \<le> f}"

definition round64 :: "real \<Rightarrow> npfloat" where
  "round64 x =
     (if overflow_threshold \<le> x then PInf
      else if x \<le> - overflow_threshold then NInf
      else (let l = below x; h = above x
            in if l = h then Fin l
               else if x - l < h - x then Fin l
               else if h - x < x - l then Fin h
               else if even \<lfloor>l / (h - l)\<rfloor> then Fin l
               else Fin h))"

text \<open>
  The order of float64 values as the comparisons of the language see it: every comparison
  with nan is false.
\<close>

fun np_le :: "npfloat \<Rightarrow> npfloat \<Rightarrow> bool" where
  "np_le NaN b = False"
| "np_le a NaN = False"
| "np_le NInf b = True"
| "np_le a PInf = True"
| "np_le (Fin x) (Fin y) = (x \<le> y)"
| "np_le PInf b = False"
| "np_le a NInf = False"

fun is_finite :: "npfloat \<Rightarrow> bool" where
  "is_finite (Fin x) = True"
| "is_finite PInf = False"
| "is_finite NInf = False"
| "is_finite NaN = False"

subsection \<open>float64 arithmetic\<close>

text \<open>
  Addition, subtraction, multiplication, division and square root give the rounded exact
  result, as IEEE 754 requires, and follow its rules for infinities and nan. NumPy reports
  an invalid operation or a division by zero with a RuntimeWarning and carries on with
  the value; it raises nothing. Python's own \<^verbatim>\<open>+\<close>, \<^verbatim>\<open>-\<close> and \<^verbatim>\<open>*\<close> on floats are the
  same operations and overflow to an infinity silently.
\<close>

fun sign_of :: "npfloat \<Rightarrow> real" where
  "sign_of (Fin x) = sgn x"
| "sign_of PInf = 1"
| "sign_of NInf = - 1"
| "sign_of NaN = 0"

definition inf_of_sign :: "real \<Rightarrow> npfloat" where
  "inf_of_sign s = (if 0 < s then PInf else if s < 0 then NInf else NaN)"

fun np_add :: "npfloat \<Rightarrow> npfloat \<Rightarrow> npfloat" where
  "np_add (Fin x) (Fin y) = round64 (x + y)"
| "np_add NaN b = NaN"
| "np_add a NaN = NaN"
| "np_add PInf NInf = NaN"
| "np_add NInf PInf = NaN"
| "np_add PInf b = PInf"
| "np_add a PInf = PInf"
| "np_add NInf b = NInf"
| "np_add a NInf = NInf"

fun np_neg :: "npfloat \<Rightarrow> npfloat" where
  "np_neg (Fin x) = Fin (- x)"
| "np_neg PInf = NInf"
| "np_neg NInf = PInf"
| "np_neg NaN = NaN"

definition np_sub :: "npfloat \<Rightarrow> npfloat \<Rightarrow> npfloat" where
  "np_sub a b = np_add a (np_neg b)"

fun np_mul :: "npfloat \<Rightarrow> npfloat \<Rightarrow> npfloat" where
  "np_mul (Fin x) (Fin y) = round64 (x * y)"
| "np_mul NaN b = NaN"
| "np_mul a NaN = NaN"
| "np_mul a b = inf_of_sign (sign_of a * sign_of b)"

fun np_truediv :: "npfloat \<Rightarrow> npfloat \<Rightarrow> npfloat" where
  "np_truediv (Fin x) (Fin y) = (if y = 0 then inf_of_sign (sgn x) else round64 (x / y))"
| "np_truediv NaN b = NaN"
| "np_truediv a NaN = NaN"
| "np_truediv (Fin x) b = Fin 0"
| "np_truediv a (Fin y) = inf_of_sign (sign_of a * (if y < 0 then - 1 else 1))"
| "np_truediv a b = NaN"

fun np_sqrt :: "npfloat \<Rightarrow> npfloat" where
  "np_sqrt (Fin x) = (if x < 0 then NaN else round64 (sqrt x))"
| "np_sqrt PInf = PInf"
| "np_sqrt NInf = NaN"
| "np_sqrt NaN = NaN"

text \<open>
  The comparison \<^verbatim>\<open>payoff>0\<close>, false on nan, and a boolean as a factor, as in
  \<^verbatim>\<open>payoff*(payoff>0)\<close>: True is 1.0 and False is 0.0.
\<close>

fun np_gt0 :: "npfloat \<Rightarrow> bool" where
  "np_gt0 (Fin x) = (0 < x)"
| "np_gt0 PInf = True"
| "np_gt0 NInf = False"
| "np_gt0 NaN = False"

definition np_of_bool :: "bool \<Rightarrow> npfloat" where
  "np_of_bool b = Fin (if b then 1 else 0)"

subsection \<open>What the platform supplies\<close>

text \<open>
  Four things the code uses are in no file of the repository and are not fixed by
  IEEE 754, so they are parameters of the model:
  \<^item> \<open>libm_exp\<close>, the value of \<^verbatim>\<open>np.exp\<close> at a finite argument (the C library's
    exponential is accurate to about one unit in the last place, not correctly rounded);
  \<^item> \<open>libm_pow2\<close>, the value of the C library's \<^verbatim>\<open>pow(x, 2.0)\<close>, which Python's
    \<^verbatim>\<open>sgm**2\<close> calls; Python raises OverflowError when that value is an infinity;
  \<^item> \<open>reduce_plan\<close>, the order in which \<^verbatim>\<open>np.add.reduce\<close> adds the elements of an array
    of a given length, as a binary tree over the indices (NumPy adds in blocks and
    pairwise, not left to right);
  \<^item> \<open>max_alloc\<close>, the largest array size the machine creates; NumPy itself creates no
    array of \<open>2\<^sup>6\<^sup>3\<close> elements or more, whence \<open>alloc_limit\<close> below.
\<close>

datatype sumtree = Elem nat | Plus sumtree sumtree

fun tree_sum :: "npfloat list \<Rightarrow> sumtree \<Rightarrow> npfloat" where
  "tree_sum xs (Elem i) = xs ! i"
| "tree_sum xs (Plus a b) = np_add (tree_sum xs a) (tree_sum xs b)"

fun leaves :: "sumtree \<Rightarrow> nat list" where
  "leaves (Elem i) = [i]"
| "leaves (Plus a b) = leaves a @ leaves b"

record platform =
  libm_exp :: "real \<Rightarrow> npfloat"
  libm_pow2 :: "real \<Rightarrow> npfloat"
  reduce_plan :: "nat \<Rightarrow> sumtree"
  max_alloc :: int

fun np_exp :: "platform \<Rightarrow> npfloat \<Rightarrow> npfloat" where
  "np_exp P (Fin x) = libm_exp P x"
| "np_exp P PInf = PInf"
| "np_exp P NInf = Fin 0"
| "np_exp P NaN = NaN"

text \<open>
  The errors the code can stop with. \<open>SizeRefused\<close> stands for what NumPy raises when
  it cannot use the requested array size: OverflowError or ValueError for a size outside
  the range of a 64-bit integer or beyond its maximum dimension, MemoryError when the
  memory is not there. An error is returned together with the state of the generator at
  the moment it is raised, which shows what had been drawn by then.
\<close>

datatype error = ValueError | SizeRefused | OverflowError

definition py_pow2 :: "platform \<Rightarrow> real \<Rightarrow> error + real" where
  "py_pow2 P x = (case libm_pow2 P x of Fin v \<Rightarrow> Inr v | _ \<Rightarrow> Inl OverflowError)"

text \<open>
  A Python int as the divisor of a float64: it is converted to the nearest float64, and
  OverflowError is raised when it is too large for one.
\<close>

definition py_float_of_int :: "int \<Rightarrow> error + real" where
  "py_float_of_int n =
     (case round64 (real_of_int n) of Fin v \<Rightarrow> Inr v | _ \<Rightarrow> Inl OverflowError)"

text \<open>
  \<^verbatim>\<open>np.add.reduce\<close> and \<^verbatim>\<open>np.average\<close> without weights: the sum divided by the number
  of elements, which is 0.0 / 0 = nan for the empty array.
\<close>

definition np_add_reduce :: "platform \<Rightarrow> npfloat list \<Rightarrow> npfloat" where
  "np_add_reduce P xs =
     (if xs = [] then Fin 0 else tree_sum xs (reduce_plan P (length xs)))"

definition np_average :: "platform \<Rightarrow> npfloat list \<Rightarrow> npfloat" where
  "np_average P xs = np_truediv (np_add_reduce P xs) (round64 (real (length xs)))"

subsection \<open>The random generator\<close>

text \<open>
  Both functions draw from NumPy's process-wide generator, which is not part of the
  repository. Its state is represented by the sequence of standard-normal values it will
  deliver from now on; a draw takes the head and leaves the tail as the new state.
  \<^verbatim>\<open>np.random.standard_normal(n)\<close> raises ValueError for a negative size and refuses a
  size that is no 64-bit integer or that it cannot allocate, in every case before drawing
  anything.
\<close>

type_synonym rng = "real stream"

definition standard_normal :: "rng \<Rightarrow> real \<times> rng" where
  "standard_normal g = (shd g, stl g)"

definition alloc_limit :: "platform \<Rightarrow> int" where
  "alloc_limit P = min (max_alloc P) (2 ^ 63 - 1)"

definition standard_normal_size :: "platform \<Rightarrow> int \<Rightarrow> rng \<Rightarrow> error + (real list \<times> rng)" where
  "standard_normal_size P n g =
     (if n < - (2 ^ 63) then Inl SizeRefused
      else if n < 0 then Inl ValueError
      else if alloc_limit P < n then Inl SizeRefused
      else Inr (stake (nat n) g, sdrop (nat n) g))"

subsection \<open>mcBScall_loop\<close>

text \<open>
  \<^verbatim>\<open>for i in range(n)\<close> runs its body \<open>nat n\<close> times, so never for \<open>n \<le> 0\<close>.
  \<open>for_range\<close> is the loop with the number of iterations left, the accumulator
  \<^verbatim>\<open>payoff_sim\<close> and the generator. In the body the shock is drawn first; \<^verbatim>\<open>sgm**2\<close>
  can then raise OverflowError. The last line converts \<^verbatim>\<open>n\<close> for the division after the
  product has been formed.
\<close>

primrec for_range ::
  "platform \<Rightarrow> real \<Rightarrow> real \<Rightarrow> real \<Rightarrow> real \<Rightarrow> real \<Rightarrow> nat \<Rightarrow> npfloat \<Rightarrow> rng
     \<Rightarrow> (error \<times> rng) + (npfloat \<times> rng)" where
  "for_range P S K sgm r T 0 payoff_sim g = Inr (payoff_sim, g)"
| "for_range P S K sgm r T (Suc i) payoff_sim g =
     (let (w, g') = standard_normal g
      in case py_pow2 P sgm of
           Inl e \<Rightarrow> Inl (e, g')
         | Inr sq \<Rightarrow>
             (let ST = np_mul (Fin S)
                         (np_exp P
                            (np_add (np_mul (np_sub (Fin r) (np_mul (Fin 0.5) (Fin sq))) (Fin T))
                                    (np_mul (np_mul (Fin sgm) (np_sqrt (Fin T))) (Fin w))));
                  payoff = np_sub ST (Fin K);
                  payoff = np_mul payoff (np_of_bool (np_gt0 payoff))
              in for_range P S K sgm r T i (np_add payoff_sim payoff) g'))"

definition mcBScall_loop ::
  "platform \<Rightarrow> real \<Rightarrow> real \<Rightarrow> real \<Rightarrow> real \<Rightarrow> real \<Rightarrow> int \<Rightarrow> rng
     \<Rightarrow> (error \<times> rng) + (npfloat \<times> rng)" where
  "mcBScall_loop P S K sgm r T n g =
     (case for_range P S K sgm r T (nat n) (Fin 0) g of
        Inl e \<Rightarrow> Inl e
      | Inr (payoff_sim, g') \<Rightarrow>
          (let discounted = np_mul (np_exp P (np_mul (Fin (- r)) (Fin T))) payoff_sim
           in case py_float_of_int n of
                Inl e \<Rightarrow> Inl (e, g')
              | Inr d \<Rightarrow> Inr (np_truediv discounted (Fin d), g')))"

subsection \<open>mcBScall_vect\<close>

text \<open>
  Every line is a whole-array operation; a scalar operand is broadcast.
\<close>

definition mcBScall_vect ::
  "platform \<Rightarrow> real \<Rightarrow> real \<Rightarrow> real \<Rightarrow> real \<Rightarrow> real \<Rightarrow> int \<Rightarrow> rng
     \<Rightarrow> (error \<times> rng) + (npfloat \<times> rng)" where
  "mcBScall_vect P S K sgm r T n g =
     (case standard_normal_size P n g of
        Inl e \<Rightarrow> Inl (e, g)
      | Inr (w, g') \<Rightarrow>
          (case py_pow2 P sgm of
             Inl e \<Rightarrow> Inl (e, g')
           | Inr sq \<Rightarrow>
               (let drift = np_mul (np_sub (Fin r) (np_mul (Fin 0.5) (Fin sq))) (Fin T);
                    vol = np_mul (Fin sgm) (np_sqrt (Fin T));
                    diffusion = map (\<lambda>wi. np_mul vol (Fin wi)) w;
                    exponent = map (np_add drift) diffusion;
                    ST = map (np_mul (Fin S)) (map (np_exp P) exponent);
                    payoff = map (\<lambda>x. np_sub x (Fin K)) ST;
                    payoff = map (\<lambda>p. np_mul p (np_of_bool (np_gt0 p))) payoff;
                    price = np_mul (np_exp P (np_mul (Fin (- r)) (Fin T))) (np_average P payoff)
                in Inr (price, g'))))"

subsection \<open>One path, and the discount factor\<close>

text \<open>
  What the loop body, and each array position of the vectorised code, computes from one
  shock once \<^verbatim>\<open>sgm**2\<close> has the value \<open>sq\<close>, and the factor \<^verbatim>\<open>np.exp(-r*T)\<close>.
\<close>

definition path_payoff ::
  "platform \<Rightarrow> real \<Rightarrow> real \<Rightarrow> real \<Rightarrow> real \<Rightarrow> real \<Rightarrow> real \<Rightarrow> real \<Rightarrow> npfloat" where
  "path_payoff P S K sgm r T sq w =
     (let ST = np_mul (Fin S)
                 (np_exp P
                    (np_add (np_mul (np_sub (Fin r) (np_mul (Fin 0.5) (Fin sq))) (Fin T))
                            (np_mul (np_mul (Fin sgm) (np_sqrt (Fin T))) (Fin w))));
          payoff = np_sub ST (Fin K)
      in np_mul payoff (np_of_bool (np_gt0 payoff)))"

definition discount :: "platform \<Rightarrow> real \<Rightarrow> real \<Rightarrow> npfloat" where
  "discount P r T = np_exp P (np_mul (Fin (- r)) (Fin T))"

subsection \<open>Assumptions on the platform, and one platform\<close>

text \<open>
  What the theorems below assume of the platform: \<^verbatim>\<open>np.exp\<close> of a finite argument is a
  float64 that is not negative, or plus infinity, and never nan; and the reduction over
  an array of \<open>n \<ge> 1\<close> elements adds the elements with indices below \<open>n\<close>, all of them.
\<close>

definition exp_like :: "platform \<Rightarrow> bool" where
  "exp_like P = (\<forall>x. np_le (Fin 0) (libm_exp P x))"

definition valid_plan :: "platform \<Rightarrow> bool" where
  "valid_plan P = (\<forall>n\<ge>1. set (leaves (reduce_plan P n)) = {..<n})"

text \<open>
  One platform, to evaluate the functions at concrete arguments: both library functions
  correctly rounded, the reduction from left to right. The examples below use it only
  where every platform gives the same values: at arguments that are float64 values, with
  at most two paths, and with \<^verbatim>\<open>np.exp\<close> taken at 0 and far beyond its overflow and
  underflow thresholds (about 709.8 and -745.1).
\<close>

primrec sequential :: "nat \<Rightarrow> sumtree" where
  "sequential 0 = Elem 0"
| "sequential (Suc k) = Plus (sequential k) (Elem (Suc k))"

definition float64_platform :: platform where
  "float64_platform =
     \<lparr>libm_exp = (\<lambda>x. round64 (exp x)),
      libm_pow2 = (\<lambda>x. round64 (x * x)),
      reduce_plan = (\<lambda>n. sequential (n - 1)),
      max_alloc = 2 ^ 31\<rparr>"

subsection \<open>Predicates of the statements\<close>

text \<open>
  \<open>nonneg_or_nan x\<close>: \<open>x\<close> is nan, or \<open>x \<ge> 0\<close> (plus infinity included).
  \<open>ge_or_nan a b\<close>: one of the two is nan, or \<open>a \<ge> b\<close>.
  \<open>same_error_or_ge\<close>: two calls stop with the same error in the same generator state,
  or both return, in the same generator state, prices \<open>p1, p2\<close> with \<open>ge_or_nan p1 p2\<close>.
\<close>

definition nonneg_or_nan :: "npfloat \<Rightarrow> bool" where
  "nonneg_or_nan x = (x = NaN \<or> np_le (Fin 0) x)"

definition ge_or_nan :: "npfloat \<Rightarrow> npfloat \<Rightarrow> bool" where
  "ge_or_nan a b = (a = NaN \<or> b = NaN \<or> np_le b a)"

definition same_error_or_ge ::
  "(error \<times> rng) + (npfloat \<times> rng) \<Rightarrow> (error \<times> rng) + (npfloat \<times> rng) \<Rightarrow> bool" where
  "same_error_or_ge a b =
     (case (a, b) of
        (Inl x, Inl y) \<Rightarrow> x = y
      | (Inr (p1, g1), Inr (p2, g2)) \<Rightarrow> g1 = g2 \<and> ge_or_nan p1 p2
      | _ \<Rightarrow> False)"

section \<open>Properties\<close>

subsection \<open>Rounding: values on the grid, monotonicity, overflow and underflow\<close>

lemma finite_grid: "finite float64_grid"
  by (simp add: float64_grid_def float64_finite_def)

lemma threshold_less_huge: "overflow_threshold < float64_huge"
  by (simp add: overflow_threshold_def float64_huge_def)

lemma threshold_pos: "0 < overflow_threshold"
  by (simp add: overflow_threshold_def)

lemma finite_in_grid: "f \<in> float64_finite \<Longrightarrow> f \<in> float64_grid"
  by (simp add: float64_grid_def)

lemma zero_finite: "0 \<in> float64_finite"
  unfolding float64_finite_def by (rule image_eqI [where x = "(0, 0)"]) simp_all

lemma int_finite: "\<bar>m\<bar> < 2 ^ 53 \<Longrightarrow> real_of_int m \<in> float64_finite"
  unfolding float64_finite_def by (rule image_eqI [where x = "(m, 0)"]) auto

lemma below_props:
  assumes "- float64_huge \<le> x"
  shows "below x \<in> float64_grid" "below x \<le> x"
    and "\<And>f. f \<in> float64_grid \<Longrightarrow> f \<le> x \<Longrightarrow> f \<le> below x"
proof -
  let ?L = "{f \<in> float64_grid. f \<le> x}"
  have fin: "finite ?L" using finite_grid by simp
  have ne: "?L \<noteq> {}" using assms by (auto simp: float64_grid_def)
  from Max_in [OF fin ne] show "below x \<in> float64_grid" "below x \<le> x"
    by (simp_all add: below_def)
  show "\<And>f. f \<in> float64_grid \<Longrightarrow> f \<le> x \<Longrightarrow> f \<le> below x"
    unfolding below_def using fin by (intro Max_ge) simp_all
qed

lemma above_props:
  assumes "x \<le> float64_huge"
  shows "above x \<in> float64_grid" "x \<le> above x"
    and "\<And>f. f \<in> float64_grid \<Longrightarrow> x \<le> f \<Longrightarrow> above x \<le> f"
proof -
  let ?U = "{f \<in> float64_grid. x \<le> f}"
  have fin: "finite ?U" using finite_grid by simp
  have ne: "?U \<noteq> {}" using assms by (auto simp: float64_grid_def)
  from Min_in [OF fin ne] show "above x \<in> float64_grid" "x \<le> above x"
    by (simp_all add: above_def)
  show "\<And>f. f \<in> float64_grid \<Longrightarrow> x \<le> f \<Longrightarrow> above x \<le> f"
    unfolding above_def using fin by (intro Min_le) simp_all
qed

lemma finite_bound:
  assumes "f \<in> float64_finite"
  shows "\<bar>f\<bar> \<le> 2 ^ 1024 - 2 ^ 971"
proof -
  from assms obtain m e where f: "f = real_of_int m * 2 powi e"
    and m: "- (2 ^ 53) < m" "m < 2 ^ 53" and e: "e \<le> 971"
    by (auto simp: float64_finite_def)
  from m have "\<bar>m\<bar> \<le> 2 ^ 53 - 1" by simp
  then have "real_of_int \<bar>m\<bar> \<le> real_of_int (2 ^ 53 - 1)"
    by (rule of_int_le_iff [THEN iffD2])
  then have m': "\<bar>real_of_int m\<bar> \<le> 2 ^ 53 - 1" by simp
  have "(2::real) powi e \<le> 2 powi 971"
    using e by (intro power_int_increasing) simp_all
  then have e': "(2::real) powi e \<le> 2 ^ 971" by simp
  have "\<bar>f\<bar> = \<bar>real_of_int m\<bar> * 2 powi e"
    by (simp add: f abs_mult)
  also have "\<dots> \<le> (2 ^ 53 - 1) * 2 ^ 971"
    using m' e' by (intro mult_mono) simp_all
  also have "\<dots> = (2::real) ^ 1024 - 2 ^ 971"
    by (simp add: algebra_simps flip: power_add)
  finally show ?thesis .
qed

lemma finite_below_threshold:
  assumes "f \<in> float64_finite"
  shows "f < overflow_threshold" "- overflow_threshold < f"
proof -
  have "(2::real) ^ 1024 - 2 ^ 971 < 2 ^ 1024 - 2 ^ 970" by simp
  with finite_bound [OF assms] have "\<bar>f\<bar> < overflow_threshold"
    by (simp add: overflow_threshold_def)
  then show "f < overflow_threshold" "- overflow_threshold < f" by auto
qed

lemma below_grid: "f \<in> float64_grid \<Longrightarrow> below f = f"
  unfolding below_def using finite_grid by (intro Max_eqI) simp_all

lemma above_grid: "f \<in> float64_grid \<Longrightarrow> above f = f"
  unfolding above_def using finite_grid by (intro Min_eqI) simp_all

lemma round64_finite: "f \<in> float64_finite \<Longrightarrow> round64 f = Fin f"
  using finite_below_threshold [of f]
  by (simp add: round64_def below_grid above_grid finite_in_grid Let_def)

lemma round64_not_nan: "round64 x \<noteq> NaN"
  by (simp add: round64_def Let_def)

lemma round64_in_range:
  assumes "- overflow_threshold < x" "x < overflow_threshold"
  shows "\<exists>rx. round64 x = Fin rx \<and> (rx = below x \<or> rx = above x)
           \<and> (rx = above x \<longrightarrow> above x - x \<le> x - below x)
           \<and> (rx = below x \<longrightarrow> x - below x \<le> above x - x)"
proof -
  from assms threshold_less_huge have "- float64_huge \<le> x" "x \<le> float64_huge"
    by simp_all
  then have "below x \<le> x" "x \<le> above x"
    by (simp_all add: below_props above_props)
  with assms show ?thesis
    by (auto simp: round64_def Let_def)
qed

lemma round64_mono:
  assumes "x \<le> y"
  shows "np_le (round64 x) (round64 y)"
proof -
  have thr: "overflow_threshold < float64_huge" by (rule threshold_less_huge)
  show ?thesis
  proof (cases "overflow_threshold \<le> y")
    case True
    then have "round64 y = PInf" by (simp add: round64_def)
    then show ?thesis using round64_not_nan [of x] by (cases "round64 x") simp_all
  next
    case ytop: False
    show ?thesis
    proof (cases "x \<le> - overflow_threshold")
      case True
      then have "round64 x = NInf" using threshold_pos by (simp add: round64_def)
      then show ?thesis using round64_not_nan [of y] by (cases "round64 y") simp_all
    next
      case xbot: False
      from ytop xbot assms have range:
        "- overflow_threshold < x" "x < overflow_threshold"
        "- overflow_threshold < y" "y < overflow_threshold"
        by simp_all
      with thr have huge: "- float64_huge \<le> x" "x \<le> float64_huge"
        "- float64_huge \<le> y" "y \<le> float64_huge"
        by simp_all
      note bx = below_props [OF huge(1)] and ax = above_props [OF huge(2)]
      note by' = below_props [OF huge(3)] and ay = above_props [OF huge(4)]
      have lmono: "below x \<le> below y"
        using by'(3) [OF bx(1)] bx(2) assms by simp
      have hmono: "above x \<le> above y"
        using ax(3) [OF ay(1)] ay(2) assms by simp
      obtain rx where rx: "round64 x = Fin rx" "rx = below x \<or> rx = above x"
        "rx = above x \<Longrightarrow> above x - x \<le> x - below x"
        using round64_in_range [OF range(1,2)] by blast
      obtain ry where ry: "round64 y = Fin ry" "ry = below y \<or> ry = above y"
        "ry = below y \<Longrightarrow> y - below y \<le> above y - y"
        using round64_in_range [OF range(3,4)] by blast
      have "rx \<le> ry"
      proof (cases "above x \<le> below y")
        case True
        have "rx \<le> above x" using rx(2) bx(2) ax(2) by auto
        moreover have "below y \<le> ry" using ry(2) by'(2) ay(2) by auto
        ultimately show ?thesis using True by simp
      next
        case False
        then have gap: "below y < above x" by simp
        have "below y < x"
        proof (rule ccontr)
          assume "\<not> below y < x"
          then have "x \<le> below y" by simp
          from ax(3) [OF by'(1) this] gap show False by simp
        qed
        then have "below y \<le> below x" using bx(3) [OF by'(1)] by simp
        with lmono have l: "below x = below y" by simp
        have "y < above x"
        proof (rule ccontr)
          assume "\<not> y < above x"
          then have "above x \<le> y" by simp
          from by'(3) [OF ax(1) this] gap show False by simp
        qed
        then have "above y \<le> above x" using ay(3) [OF ax(1)] by simp
        with hmono have h: "above x = above y" by simp
        show ?thesis
        proof (cases "rx = below x")
          case True
          then show ?thesis using l ry(2) by'(2) ay(2) by auto
        next
          case False
          with rx(2) have rxh: "rx = above x" by simp
          from rx(3) [OF rxh] have cx: "above x - x \<le> x - below x" .
          show ?thesis
          proof (cases "ry = above y")
            case True
            then show ?thesis using rxh h by simp
          next
            case False
            with ry(2) have ryl: "ry = below y" by simp
            from ry(3) [OF ryl] have "y - below y \<le> above y - y" .
            with cx l h assms have "x = y" by linarith
            with rx(1) ry(1) show ?thesis by simp
          qed
        qed
      qed
      with rx(1) ry(1) show ?thesis by simp
    qed
  qed
qed

lemma tiny_finite: "2 powi (- 1074) \<in> float64_finite"
  unfolding float64_finite_def by (rule image_eqI [where x = "(1, - 1074)"]) simp_all

lemma positive_grid_ge_tiny:
  assumes "f \<in> float64_grid" "0 < f"
  shows "2 powi (- 1074) \<le> f"
proof (cases "f \<in> float64_finite")
  case True
  then obtain m e where f: "f = real_of_int m * 2 powi e" and e: "- 1074 \<le> e"
    by (auto simp: float64_finite_def)
  have "0 < (2::real) powi e" by simp
  with assms(2) f have "0 < real_of_int m"
    by (simp add: zero_less_mult_iff not_less [symmetric] less_imp_le)
  then have "1 \<le> real_of_int m" by simp
  then have "1 * 2 powi e \<le> real_of_int m * (2::real) powi e"
    by (intro mult_right_mono) simp_all
  then have A: "2 powi e \<le> f"
    by (simp only: mult_1 f)
  have B: "(2::real) powi (- 1074) \<le> 2 powi e"
    using e by (intro power_int_increasing) simp_all
  from B A show ?thesis by (rule order_trans)
next
  case False
  with assms have "f = float64_huge"
    by (auto simp: float64_grid_def float64_huge_def)
  moreover have "(2::real) powi (- 1074) \<le> 1"
    by (simp add: power_int_minus field_simps)
  moreover have "(1::real) \<le> 2 ^ 1024" by simp
  ultimately show ?thesis by (simp add: float64_huge_def)
qed

lemma round64_underflow:
  assumes "0 \<le> x" "x < 2 powi (- 1075)"
  shows "round64 x = Fin 0"
proof (cases "x = 0")
  case True
  then show ?thesis by (simp add: round64_finite zero_finite)
next
  case False
  with assms have pos: "0 < x" by simp
  have half: "(2::real) powi (- 1074) = 2 * 2 powi (- 1075)"
    by (simp add: power_int_minus)
  have small: "(2::real) powi (- 1074) \<le> 1"
    by (simp add: power_int_minus field_simps)
  have one: "(1::real) < overflow_threshold"
  proof -
    have "(2::real) ^ 970 * 2 \<le> 2 ^ 970 * 2 ^ 54" by (intro mult_left_mono) simp_all
    then have "(2::real) ^ 970 + 2 ^ 970 \<le> 2 ^ 1024" by (simp flip: power_add)
    moreover have "(1::real) < 2 ^ 970" by simp
    ultimately show ?thesis by (simp add: overflow_threshold_def)
  qed
  from assms half small have xs: "x < 2 powi (- 1074)" "x < 1"
    by simp_all
  with pos one have range: "- overflow_threshold < x" "x < overflow_threshold"
    by simp_all
  with threshold_less_huge have huge: "- float64_huge \<le> x" "x \<le> float64_huge"
    by simp_all
  note b = below_props [OF huge(1)] and a = above_props [OF huge(2)]
  have "below x \<le> 0"
  proof (rule ccontr)
    assume "\<not> below x \<le> 0"
    then have "0 < below x" by simp
    from positive_grid_ge_tiny [OF b(1) this] b(2) xs(1) show False by simp
  qed
  moreover have "0 \<le> below x"
    using b(3) [OF finite_in_grid [OF zero_finite]] pos by simp
  ultimately have l: "below x = 0" by simp
  have "0 < above x" using a(2) pos by simp
  from positive_grid_ge_tiny [OF a(1) this] have "2 powi (- 1074) \<le> above x" .
  moreover have "above x \<le> 2 powi (- 1074)"
    using a(3) [OF finite_in_grid [OF tiny_finite]] xs(1) by simp
  ultimately have h: "above x = 2 powi (- 1074)" by simp
  from assms(2) half have closer: "x - 0 < 2 powi (- 1074) - x" by simp
  from range pos closer show ?thesis
    by (simp add: round64_def Let_def l h)
qed

lemma exp_2000_overflows: "overflow_threshold \<le> exp (2000::real)"
proof -
  have "(2::real) \<le> exp 1"
    using exp_ge_add_one_self [of "1::real"] by simp
  then have "(2::real) ^ 2000 \<le> exp 1 ^ 2000"
    by (intro power_mono) simp_all
  also have "\<dots> = exp (2000::real)"
    using exp_of_nat_mult [of 2000 "1::real"] by simp
  finally have "(2::real) ^ 2000 \<le> exp 2000" .
  moreover have "(2::real) ^ 1024 \<le> 2 ^ 2000"
    by (intro power_increasing) simp_all
  ultimately show ?thesis by (simp add: overflow_threshold_def)
qed

lemma exp_minus_2000_underflows: "exp (- 2000::real) < 2 powi (- 1075)"
proof -
  have "(2::real) \<le> exp 1"
    using exp_ge_add_one_self [of "1::real"] by simp
  then have "(2::real) ^ 2000 \<le> exp 1 ^ 2000"
    by (intro power_mono) simp_all
  also have "\<dots> = exp (2000::real)"
    using exp_of_nat_mult [of 2000 "1::real"] by simp
  finally have "(2::real) ^ 2000 \<le> exp 2000" .
  moreover have "(2::real) ^ 1075 < 2 ^ 2000"
    by (intro power_strict_increasing) simp_all
  ultimately have "(2::real) ^ 1075 < exp 2000" by simp
  then have "inverse (exp (2000::real)) < inverse (2 ^ 1075)"
    by (intro less_imp_inverse_less) simp_all
  then show ?thesis
    by (simp add: exp_minus power_int_minus)
qed

lemma round64_exp_2000: "round64 (exp 2000) = PInf"
  using exp_2000_overflows by (simp add: round64_def)

lemma round64_exp_minus_2000: "round64 (exp (- 2000)) = Fin 0"
  using exp_minus_2000_underflows by (intro round64_underflow) simp_all

subsection \<open>A finite result of rounding is a float64 value\<close>

lemma largest_finite: "float64_max \<in> float64_finite"
proof -
  have "float64_max = real_of_int (2 ^ 53 - 1) * 2 powi 971"
    by (simp add: float64_max_def algebra_simps flip: power_add)
  moreover have "real_of_int (2 ^ 53 - 1) * 2 powi 971 \<in> float64_finite"
    unfolding float64_finite_def
    by (rule image_eqI [where x = "(2 ^ 53 - 1, 971)"]) simp_all
  ultimately show ?thesis by (simp only:)
qed

lemma smallest_finite: "- float64_max \<in> float64_finite"
proof -
  have "- float64_max = real_of_int (- (2 ^ 53 - 1)) * 2 powi 971"
    by (simp add: float64_max_def algebra_simps flip: power_add)
  moreover have "real_of_int (- (2 ^ 53 - 1)) * 2 powi 971 \<in> float64_finite"
    unfolding float64_finite_def
    by (rule image_eqI [where x = "(- (2 ^ 53 - 1), 971)"]) simp_all
  ultimately show ?thesis by (simp only:)
qed

lemma threshold_midpoint: "2 * overflow_threshold = float64_max + float64_huge"
  by (simp add: overflow_threshold_def float64_huge_def float64_max_def)

lemma max_less_huge: "float64_max < float64_huge"
  by (simp add: float64_huge_def float64_max_def)

lemma round64_result_finite:
  assumes "round64 x = Fin v"
  shows "v \<in> float64_finite"
proof -
  let ?M = "float64_max"
  from assms have range: "- overflow_threshold < x" "x < overflow_threshold"
    using threshold_pos by (auto simp: round64_def split: if_splits)
  with threshold_less_huge have huge: "- float64_huge \<le> x" "x \<le> float64_huge"
    by simp_all
  note b = below_props [OF huge(1)] and a = above_props [OF huge(2)]
  from round64_in_range [OF range] assms
  have v: "v = below x \<or> v = above x"
    and up: "v = above x \<Longrightarrow> above x - x \<le> x - below x"
    and down: "v = below x \<Longrightarrow> x - below x \<le> above x - x"
    by auto
  have M: "?M \<in> float64_grid" "- ?M \<in> float64_grid"
    by (simp_all add: finite_in_grid largest_finite smallest_finite)
  note Mh = max_less_huge
  have "v \<noteq> float64_huge"
  proof
    assume vh: "v = float64_huge"
    with b(2) range(2) threshold_less_huge v have va: "v = above x" by auto
    have "?M < x"
    proof (rule ccontr)
      assume "\<not> ?M < x"
      then have "x \<le> ?M" by simp
      from a(3) [OF M(1) this] va vh Mh show False by simp
    qed
    then have "?M \<le> below x" using b(3) [OF M(1)] by simp
    with up [OF va] va vh have "float64_huge + ?M \<le> 2 * x" by simp
    with threshold_midpoint range(2) show False by simp
  qed
  moreover have "v \<noteq> - float64_huge"
  proof
    assume vh: "v = - float64_huge"
    with a(2) range(1) threshold_less_huge v have vb: "v = below x" by auto
    have "x < - ?M"
    proof (rule ccontr)
      assume "\<not> x < - ?M"
      then have "- ?M \<le> x" by simp
      from b(3) [OF M(2) this] vb vh Mh show False by simp
    qed
    then have "above x \<le> - ?M" using a(3) [OF M(2)] by simp
    with down [OF vb] vb vh have "2 * x \<le> - ?M - float64_huge" by simp
    with threshold_midpoint range(1) show False by simp
  qed
  moreover from v b(1) a(1) have "v \<in> float64_grid" by auto
  ultimately show ?thesis by (simp add: float64_grid_def)
qed

subsection \<open>The loop and the array code as folds over the shocks drawn\<close>

lemma for_range_pow2_error:
  "py_pow2 P sgm = Inl e \<Longrightarrow>
   for_range P S K sgm r T (Suc k) acc g = Inl (e, stl g)"
  by (simp add: standard_normal_def)

lemma for_range_fold:
  "py_pow2 P sgm = Inr sq \<Longrightarrow>
   for_range P S K sgm r T k acc g =
     Inr (foldl np_add acc (map (path_payoff P S K sgm r T sq) (stake k g)), sdrop k g)"
  by (induction k arbitrary: acc g)
     (simp_all add: standard_normal_def path_payoff_def Let_def)

lemma vect_payoff_array:
  "map (\<lambda>p. np_mul p (np_of_bool (np_gt0 p)))
     (map (\<lambda>x. np_sub x (Fin K))
        (map (np_mul (Fin S))
           (map (np_exp P)
              (map (np_add (np_mul (np_sub (Fin r) (np_mul (Fin 0.5) (Fin sq))) (Fin T)))
                 (map (\<lambda>wi. np_mul (np_mul (Fin sgm) (np_sqrt (Fin T))) (Fin wi)) w)))))
   = map (path_payoff P S K sgm r T sq) w"
  by (induction w) (simp_all add: path_payoff_def Let_def)

lemma mcBScall_vect_fold:
  assumes "0 \<le> n" "n \<le> alloc_limit P" "py_pow2 P sgm = Inr sq"
  shows "mcBScall_vect P S K sgm r T n g =
     Inr (np_mul (discount P r T)
            (np_average P (map (path_payoff P S K sgm r T sq) (stake (nat n) g))),
          sdrop (nat n) g)"
  using assms
  unfolding mcBScall_vect_def standard_normal_size_def Let_def vect_payoff_array discount_def
  by simp

lemma mcBScall_loop_fold:
  assumes "py_pow2 P sgm = Inr sq" "py_float_of_int n = Inr d"
  shows "mcBScall_loop P S K sgm r T n g =
     Inr (np_truediv
            (np_mul (discount P r T)
               (foldl np_add (Fin 0) (map (path_payoff P S K sgm r T sq) (stake (nat n) g))))
            (Fin d),
          sdrop (nat n) g)"
  using assms by (simp add: mcBScall_loop_def for_range_fold discount_def)

subsection \<open>Rounding at particular values\<close>

lemma round64_zero: "round64 0 = Fin 0"
  by (simp add: round64_finite zero_finite)

lemma round64_of_int: "\<bar>m\<bar> < 2 ^ 53 \<Longrightarrow> round64 (real_of_int m) = Fin (real_of_int m)"
  by (simp add: round64_finite int_finite)

lemma round64_one: "round64 1 = Fin 1"
  using round64_of_int [of 1] by simp

lemma round64_numeral:
  "(numeral k :: int) < 2 ^ 53 \<Longrightarrow> round64 (numeral k) = Fin (numeral k)"
  using round64_of_int [of "numeral k"] by simp

lemma round64_neg_numeral:
  "(numeral k :: int) < 2 ^ 53 \<Longrightarrow> round64 (- numeral k) = Fin (- numeral k)"
  using round64_of_int [of "- numeral k"] by simp

lemma half_finite: "1 / 2 \<in> float64_finite"
  unfolding float64_finite_def
  by (rule image_eqI [where x = "(1, - 1)"]) (simp_all add: power_int_minus)

lemma round64_half: "round64 (1 / 2) = Fin (1 / 2)"
  by (rule round64_finite [OF half_finite])

lemma np_le_refl: "a \<noteq> NaN \<Longrightarrow> np_le a a"
  by (cases a) simp_all

lemma np_le_PInf: "a \<noteq> NaN \<Longrightarrow> np_le a PInf"
  by (cases a) simp_all

lemma np_le_NInf: "a \<noteq> NaN \<Longrightarrow> np_le NInf a"
  by (cases a) simp_all

lemma round64_le_PInf: "np_le (round64 x) PInf"
  by (simp add: np_le_PInf round64_not_nan)

lemma round64_ge_NInf: "np_le NInf (round64 x)"
  by (simp add: np_le_NInf round64_not_nan)

lemma round64_nonneg: "0 \<le> x \<Longrightarrow> np_le (Fin 0) (round64 x)"
  using round64_mono [of 0 x] by (simp add: round64_zero)

lemma round64_nonpos: "x \<le> 0 \<Longrightarrow> np_le (round64 x) (Fin 0)"
  using round64_mono [of x 0] by (simp add: round64_zero)

lemma round64_ge_one: "1 \<le> x \<Longrightarrow> np_le (Fin 1) (round64 x)"
  using round64_mono [of 1 x] by (simp add: round64_one)

lemma round64_le_minus_one: "x \<le> - 1 \<Longrightarrow> np_le (round64 x) (Fin (- 1))"
  using round64_mono [of x "- 1"] round64_of_int [of "- 1"] by simp

lemma inf_of_sign_not_finite: "\<not> is_finite (inf_of_sign s)"
  by (simp add: inf_of_sign_def)

subsection \<open>Values that are not finite stay so\<close>

lemma np_add_nonfinite_left: "\<not> is_finite a \<Longrightarrow> \<not> is_finite (np_add a b)"
  by (cases a; cases b) simp_all

lemma np_add_nonfinite_right: "\<not> is_finite b \<Longrightarrow> \<not> is_finite (np_add a b)"
  by (cases a; cases b) simp_all

lemma np_mul_nonfinite_right: "\<not> is_finite b \<Longrightarrow> \<not> is_finite (np_mul a b)"
  by (cases a; cases b) (simp_all add: inf_of_sign_not_finite)

lemma np_truediv_nonfinite: "\<not> is_finite a \<Longrightarrow> \<not> is_finite (np_truediv a b)"
  by (cases a; cases b) (simp_all add: inf_of_sign_not_finite)

lemma foldl_nonfinite_acc:
  "\<not> is_finite acc \<Longrightarrow> \<not> is_finite (foldl np_add acc xs)"
  by (induction xs arbitrary: acc) (simp_all add: np_add_nonfinite_left)

lemma foldl_nonfinite:
  "x \<in> set xs \<Longrightarrow> \<not> is_finite x \<Longrightarrow> \<not> is_finite (foldl np_add acc xs)"
  by (induction xs arbitrary: acc)
     (auto simp: np_add_nonfinite_right foldl_nonfinite_acc)

lemma tree_sum_nonfinite:
  "i \<in> set (leaves t) \<Longrightarrow> \<not> is_finite (xs ! i) \<Longrightarrow> \<not> is_finite (tree_sum xs t)"
  by (induction t) (auto simp: np_add_nonfinite_left np_add_nonfinite_right)

subsection \<open>Values that are nan or not negative\<close>

lemma nonneg_or_nan_cases:
  "nonneg_or_nan a \<longleftrightarrow> a = NaN \<or> a = PInf \<or> (\<exists>v\<ge>0. a = Fin v)"
  by (cases a) (auto simp: nonneg_or_nan_def)

lemma round64_nonneg_or_nan: "0 \<le> x \<Longrightarrow> nonneg_or_nan (round64 x)"
  by (simp add: nonneg_or_nan_def round64_nonneg)

lemma np_add_nonneg:
  "nonneg_or_nan a \<Longrightarrow> nonneg_or_nan b \<Longrightarrow> nonneg_or_nan (np_add a b)"
  by (auto simp: nonneg_or_nan_cases [of a] nonneg_or_nan_cases [of b]
      round64_nonneg_or_nan) (simp_all add: nonneg_or_nan_def)

lemma np_mul_nonneg:
  "nonneg_or_nan a \<Longrightarrow> nonneg_or_nan b \<Longrightarrow> nonneg_or_nan (np_mul a b)"
  by (auto simp: nonneg_or_nan_cases [of a] nonneg_or_nan_cases [of b]
      round64_nonneg_or_nan) (simp_all add: nonneg_or_nan_def inf_of_sign_def sgn_if)

lemma np_truediv_nonneg:
  "nonneg_or_nan a \<Longrightarrow> np_le (Fin 0) b \<Longrightarrow> nonneg_or_nan (np_truediv a b)"
  by (cases b; auto simp: nonneg_or_nan_cases [of a] round64_nonneg_or_nan)
     (simp_all add: nonneg_or_nan_def inf_of_sign_def sgn_if)

lemma clamp_nonneg: "nonneg_or_nan (np_mul p (np_of_bool (np_gt0 p)))"
  by (cases p)
     (auto simp: np_of_bool_def round64_zero round64_nonneg
        nonneg_or_nan_def inf_of_sign_def)

lemma path_payoff_nonneg: "nonneg_or_nan (path_payoff P S K sgm r T sq w)"
  by (simp add: path_payoff_def Let_def clamp_nonneg)

lemma foldl_nonneg:
  "nonneg_or_nan acc \<Longrightarrow> \<forall>x\<in>set xs. nonneg_or_nan x \<Longrightarrow>
   nonneg_or_nan (foldl np_add acc xs)"
  by (induction xs arbitrary: acc) (simp_all add: np_add_nonneg)

lemma tree_sum_nonneg:
  "\<forall>i\<in>set (leaves t). i < length xs \<Longrightarrow> \<forall>x\<in>set xs. nonneg_or_nan x \<Longrightarrow>
   nonneg_or_nan (tree_sum xs t)"
  by (induction t) (simp_all add: np_add_nonneg)

lemma discount_nonneg: "exp_like P \<Longrightarrow> np_le (Fin 0) (discount P r T)"
proof -
  assume e: "exp_like P"
  show ?thesis
  proof (cases "round64 (- r * T)")
    case (Fin x)
    with e show ?thesis by (simp add: discount_def exp_like_def)
  next
    case PInf then show ?thesis by (simp add: discount_def)
  next
    case NInf then show ?thesis by (simp add: discount_def)
  next
    case NaN then show ?thesis using round64_not_nan by simp
  qed
qed

subsection \<open>Order is kept by every operation, up to nan\<close>

lemma ge_or_nan_refl: "ge_or_nan a a"
  by (cases a) (simp_all add: ge_or_nan_def)

lemma ge_or_nan_round64: "y \<le> x \<Longrightarrow> ge_or_nan (round64 x) (round64 y)"
  by (simp add: ge_or_nan_def round64_mono)

lemma ge_or_nan_inf_of_sign: "t \<le> s \<Longrightarrow> ge_or_nan (inf_of_sign s) (inf_of_sign t)"
  by (simp add: ge_or_nan_def inf_of_sign_def)

lemma ge_or_nan_PInf_round64: "ge_or_nan PInf (round64 x)"
  by (simp add: ge_or_nan_def round64_le_PInf)

lemma ge_or_nan_round64_NInf: "ge_or_nan (round64 x) NInf"
  by (simp add: ge_or_nan_def round64_ge_NInf)

lemma np_add_ge:
  "ge_or_nan a1 a2 \<Longrightarrow> ge_or_nan b1 b2 \<Longrightarrow> ge_or_nan (np_add a1 b1) (np_add a2 b2)"
  by (cases a1; cases a2; cases b1; cases b2)
     (auto simp: ge_or_nan_def round64_le_PInf round64_ge_NInf
        intro!: round64_mono add_mono)

lemma np_sub_strike_ge:
  "K1 \<le> K2 \<Longrightarrow> ge_or_nan (np_sub x (Fin K1)) (np_sub x (Fin K2))"
  by (cases x) (auto simp: np_sub_def ge_or_nan_def intro!: round64_mono)

lemma clamp_ge:
  "ge_or_nan a b \<Longrightarrow>
   ge_or_nan (np_mul a (np_of_bool (np_gt0 a))) (np_mul b (np_of_bool (np_gt0 b)))"
  by (cases a; cases b)
     (auto simp: np_of_bool_def round64_zero ge_or_nan_def inf_of_sign_def
        round64_nonneg round64_le_PInf round64_mono)

lemma np_mul_ge:
  "np_le (Fin 0) d \<Longrightarrow> ge_or_nan a b \<Longrightarrow> ge_or_nan (np_mul d a) (np_mul d b)"
  by (cases d; cases a; cases b)
     (auto simp: ge_or_nan_def inf_of_sign_def sgn_if round64_le_PInf round64_ge_NInf
        intro!: round64_mono mult_left_mono)

lemma np_truediv_ge:
  "np_le (Fin 1) c \<Longrightarrow> ge_or_nan a b \<Longrightarrow> ge_or_nan (np_truediv a c) (np_truediv b c)"
  by (cases c; cases a; cases b)
     (auto simp: ge_or_nan_def inf_of_sign_def round64_le_PInf round64_ge_NInf
        intro!: round64_mono divide_right_mono)

lemma foldl_ge:
  "list_all2 ge_or_nan xs ys \<Longrightarrow> ge_or_nan a b \<Longrightarrow>
   ge_or_nan (foldl np_add a xs) (foldl np_add b ys)"
  by (induction xs ys arbitrary: a b rule: list_all2_induct) (simp_all add: np_add_ge)

lemma tree_sum_ge:
  "list_all2 ge_or_nan xs ys \<Longrightarrow> \<forall>i\<in>set (leaves t). i < length xs \<Longrightarrow>
   ge_or_nan (tree_sum xs t) (tree_sum ys t)"
  by (induction t) (simp_all add: np_add_ge list_all2_nthD)

lemma path_payoff_strike_ge:
  "K1 \<le> K2 \<Longrightarrow>
   ge_or_nan (path_payoff P S K1 sgm r T sq w) (path_payoff P S K2 sgm r T sq w)"
  by (simp add: path_payoff_def Let_def clamp_ge np_sub_strike_ge)

lemma payoffs_strike_ge:
  "K1 \<le> K2 \<Longrightarrow>
   list_all2 ge_or_nan (map (path_payoff P S K1 sgm r T sq) ws)
                       (map (path_payoff P S K2 sgm r T sq) ws)"
  by (induction ws) (simp_all add: path_payoff_strike_ge)

subsection \<open>How a call ends\<close>

lemma py_pow2_error: "py_pow2 P x = Inl e \<Longrightarrow> e = OverflowError"
  by (auto simp: py_pow2_def split: npfloat.splits)

lemma py_float_of_int_error: "py_float_of_int n = Inl e \<Longrightarrow> e = OverflowError"
  by (auto simp: py_float_of_int_def split: npfloat.splits)

lemma py_float_of_int_zero: "py_float_of_int 0 = Inr 0"
  by (simp add: py_float_of_int_def round64_zero)

lemma py_float_of_int_pos: "1 \<le> n \<Longrightarrow> py_float_of_int n = Inr d \<Longrightarrow> 1 \<le> d"
  using round64_ge_one [of "real_of_int n"]
  by (auto simp: py_float_of_int_def split: npfloat.splits)

lemma py_float_of_int_neg: "n < 0 \<Longrightarrow> py_float_of_int n = Inr d \<Longrightarrow> d \<le> - 1"
  using round64_le_minus_one [of "real_of_int n"]
  by (auto simp: py_float_of_int_def split: npfloat.splits)

lemma py_float_of_int_small:
  "\<bar>n\<bar> < 2 ^ 53 \<Longrightarrow> py_float_of_int n = Inr (real_of_int n)"
  by (simp add: py_float_of_int_def round64_of_int)

lemma mcBScall_loop_pow2_error:
  assumes "1 \<le> n" "py_pow2 P sgm = Inl e"
  shows "mcBScall_loop P S K sgm r T n g = Inl (OverflowError, stl g)"
proof -
  from assms(1) obtain k where k: "nat n = Suc k"
    by (cases "nat n") simp_all
  from assms(2) have "e = OverflowError" by (rule py_pow2_error)
  with assms(2) k show ?thesis
    by (simp add: mcBScall_loop_def standard_normal_def)
qed

lemma mcBScall_loop_nonpositive:
  assumes "n \<le> 0"
  shows "mcBScall_loop P S K sgm r T n g =
     (case py_float_of_int n of
        Inl e \<Rightarrow> Inl (e, g)
      | Inr d \<Rightarrow> Inr (np_truediv (np_mul (discount P r T) (Fin 0)) (Fin d), g))"
  using assms
  by (cases "py_float_of_int n") (simp_all add: mcBScall_loop_def discount_def)

lemma discount_times_zero:
  assumes "exp_like P"
  shows "np_mul (discount P r T) (Fin 0) = (if discount P r T = PInf then NaN else Fin 0)"
  using discount_nonneg [OF assms, of r T]
  by (cases "discount P r T") (simp_all add: round64_zero inf_of_sign_def)

lemma mcBScall_loop_zero:
  assumes "exp_like P"
  shows "mcBScall_loop P S K sgm r T 0 g = Inr (NaN, g)"
  by (simp add: mcBScall_loop_nonpositive py_float_of_int_zero
      discount_times_zero [OF assms] inf_of_sign_def)

lemma mcBScall_loop_negative:
  assumes "exp_like P" "n < 0" "py_float_of_int n = Inr d"
  shows "mcBScall_loop P S K sgm r T n g =
           Inr (if discount P r T = PInf then NaN else Fin 0, g)"
proof -
  from assms(2,3) have "d \<le> - 1" by (rule py_float_of_int_neg)
  then have "d \<noteq> 0" by simp
  with assms show ?thesis
    by (simp add: mcBScall_loop_nonpositive discount_times_zero [OF assms(1)] round64_zero)
qed

lemma mcBScall_loop_negative_error:
  assumes "n \<le> 0" "py_float_of_int n = Inl e"
  shows "mcBScall_loop P S K sgm r T n g = Inl (OverflowError, g)"
  using assms py_float_of_int_error [OF assms(2)]
  by (simp add: mcBScall_loop_nonpositive)

lemma mcBScall_loop_int_error:
  assumes "py_pow2 P sgm = Inr sq" "py_float_of_int n = Inl e"
  shows "mcBScall_loop P S K sgm r T n g = Inl (OverflowError, sdrop (nat n) g)"
  using assms py_float_of_int_error [OF assms(2)]
  by (simp add: mcBScall_loop_def for_range_fold)

lemma mcBScall_vect_negative:
  "- (2 ^ 63) \<le> n \<Longrightarrow> n < 0 \<Longrightarrow> mcBScall_vect P S K sgm r T n g = Inl (ValueError, g)"
  by (simp add: mcBScall_vect_def standard_normal_size_def)

lemma mcBScall_vect_refused:
  "n < - (2 ^ 63) \<or> 0 \<le> n \<and> alloc_limit P < n \<Longrightarrow>
   mcBScall_vect P S K sgm r T n g = Inl (SizeRefused, g)"
  by (auto simp: mcBScall_vect_def standard_normal_size_def)

lemma size_cases:
  obtains (refused) "n < - (2 ^ 63) \<or> 0 \<le> n \<and> alloc_limit P < n"
  | (negative) "- (2 ^ 63) \<le> n" "n < 0"
  | (drawn) "0 \<le> n" "n \<le> alloc_limit P"
  by linarith

lemma mcBScall_vect_pow2_error:
  assumes "0 \<le> n" "n \<le> alloc_limit P" "py_pow2 P sgm = Inl e"
  shows "mcBScall_vect P S K sgm r T n g = Inl (OverflowError, sdrop (nat n) g)"
  using assms py_pow2_error [OF assms(3)]
  by (simp add: mcBScall_vect_def standard_normal_size_def)

lemma leaves_sequential: "set (leaves (sequential k)) = {..k}"
  by (induction k) (auto simp: atMost_Suc)

lemma float64_platform_valid_plan: "valid_plan float64_platform"
  by (auto simp: valid_plan_def float64_platform_def leaves_sequential)

lemma float64_platform_alloc_limit: "alloc_limit float64_platform = 2 ^ 31"
  by (simp add: alloc_limit_def float64_platform_def)

lemma float64_platform_exp_like: "exp_like float64_platform"
  by (simp add: exp_like_def float64_platform_def round64_nonneg)


text \<open>
  C10, amended. For every \<open>n \<le> 0\<close> the loop body of \<^verbatim>\<open>mcBScall_loop\<close> never runs: the
  generator is left as it was and the accumulated payoff sum is 0. For \<open>n = 0\<close> the last
  line does not fail: the division by zero gives nan, which the function returns. For
  \<open>n < 0\<close> the function raises OverflowError when \<open>n\<close> is too large in magnitude for a
  float, returns nan when the discount factor \<^verbatim>\<open>np.exp(-r*T)\<close> has overflowed to infinity
  (infinity times 0.0), and returns 0 otherwise; it raises no validation error.
\<close>

theorem loop_with_nonpositive_count:
  assumes "exp_like P" "n \<le> 0"
  shows "for_range P S K sgm r T (nat n) (Fin 0) g = Inr (Fin 0, g)
         \<and> (n = 0 \<longrightarrow> mcBScall_loop P S K sgm r T n g = Inr (NaN, g))
         \<and> (n < 0 \<longrightarrow> mcBScall_loop P S K sgm r T n g =
               (if isl (py_float_of_int n) then Inl (OverflowError, g)
                else if discount P r T = PInf then Inr (NaN, g)
                else Inr (Fin 0, g)))"
proof (intro conjI impI)
  from assms(2) show "for_range P S K sgm r T (nat n) (Fin 0) g = Inr (Fin 0, g)"
    by simp
next
  assume "n = 0"
  with assms(1) show "mcBScall_loop P S K sgm r T n g = Inr (NaN, g)"
    by (simp add: mcBScall_loop_zero)
next
  assume n: "n < 0"
  show "mcBScall_loop P S K sgm r T n g =
          (if isl (py_float_of_int n) then Inl (OverflowError, g)
           else if discount P r T = PInf then Inr (NaN, g)
           else Inr (Fin 0, g))"
  proof (cases "py_float_of_int n")
    case (Inl e)
    with n show ?thesis by (simp add: mcBScall_loop_negative_error)
  next
    case (Inr d)
    with assms(1) n show ?thesis by (simp add: mcBScall_loop_negative)
  qed
qed

lemmas float64_eval =
  float64_platform_def py_pow2_def py_float_of_int_small round64_zero round64_one
  round64_numeral round64_neg_numeral round64_half round64_exp_2000 round64_exp_minus_2000
  np_sub_def np_of_bool_def inf_of_sign_def path_payoff_def discount_def Let_def
  np_average_def np_add_reduce_def

subsection \<open>Evaluation on the platform of the examples\<close>

lemma pow2_zero: "py_pow2 float64_platform 0 = Inr 0"
  by (simp add: float64_eval)

lemma pow2_one: "py_pow2 float64_platform 1 = Inr 1"
  by (simp add: float64_eval)

lemma float_of_one: "py_float_of_int 1 = Inr 1"
  using py_float_of_int_small [of 1] by simp


lemma loop_overflow_2000:
  "mcBScall_loop float64_platform 100 K 0 2000 1 1 (w ## g) = Inr (NaN, g)"
  unfolding mcBScall_loop_fold [OF pow2_zero float_of_one]
  by (simp add: float64_eval)

lemma vect_overflow_2000:
  "mcBScall_vect float64_platform 100 K 0 2000 1 1 (w ## g) = Inr (NaN, g)"
proof -
  have "mcBScall_vect float64_platform 100 K 0 2000 1 1 (w ## g)
          = Inr (np_mul (discount float64_platform 2000 1)
                   (np_average float64_platform
                      (map (path_payoff float64_platform 100 K 0 2000 1 0)
                         (stake (nat 1) (w ## g)))),
                 sdrop (nat 1) (w ## g))"
    by (rule mcBScall_vect_fold [OF _ _ pow2_zero]) (simp_all add: float64_platform_alloc_limit)
  then show ?thesis
    by (simp add: float64_eval)
qed

lemma path_overflow_2000: "path_payoff float64_platform 100 K 0 2000 1 0 w = PInf"
  by (simp add: float64_eval)

subsection \<open>Sign of the price\<close>

lemma discount_nonneg_or_nan: "exp_like P \<Longrightarrow> nonneg_or_nan (discount P r T)"
  by (simp add: nonneg_or_nan_def discount_nonneg)

lemma payoffs_nonneg: "\<forall>x\<in>set (map (path_payoff P S K sgm r T sq) ws). nonneg_or_nan x"
  by (simp add: path_payoff_nonneg)

lemma zero_nonneg: "nonneg_or_nan (Fin 0)"
  by (simp add: nonneg_or_nan_def)

lemma plan_in_range:
  "valid_plan P \<Longrightarrow> xs \<noteq> [] \<Longrightarrow> \<forall>i\<in>set (leaves (reduce_plan P (length xs))). i < length xs"
  by (cases xs) (auto simp: valid_plan_def)

lemma np_add_reduce_nonneg:
  assumes "valid_plan P" "\<forall>x\<in>set xs. nonneg_or_nan x"
  shows "nonneg_or_nan (np_add_reduce P xs)"
proof (cases "xs = []")
  case True
  then show ?thesis by (simp add: np_add_reduce_def zero_nonneg)
next
  case False
  with assms show ?thesis
    by (simp add: np_add_reduce_def tree_sum_nonneg plan_in_range)
qed

lemma np_average_nonneg:
  assumes "valid_plan P" "\<forall>x\<in>set xs. nonneg_or_nan x"
  shows "nonneg_or_nan (np_average P xs)"
  unfolding np_average_def
  by (intro np_truediv_nonneg np_add_reduce_nonneg assms round64_nonneg) simp

lemma loop_price_nonneg:
  assumes "exp_like P" "1 \<le> n"
  shows "case mcBScall_loop P S K sgm r T n g of
           Inl (e, g') \<Rightarrow> e = OverflowError
         | Inr (p, g') \<Rightarrow> nonneg_or_nan p"
proof (cases "py_pow2 P sgm")
  case (Inl e)
  with assms(2) show ?thesis by (simp add: mcBScall_loop_pow2_error)
next
  case sq: (Inr sq)
  show ?thesis
  proof (cases "py_float_of_int n")
    case (Inl e)
    with sq show ?thesis by (simp add: mcBScall_loop_int_error)
  next
    case (Inr d)
    with assms(2) have "1 \<le> d" by (simp add: py_float_of_int_pos)
    then have d: "np_le (Fin 0) (Fin d)" by simp
    have "nonneg_or_nan
        (np_truediv
           (np_mul (discount P r T)
              (foldl np_add (Fin 0) (map (path_payoff P S K sgm r T sq) (stake (nat n) g))))
           (Fin d))"
      by (intro np_truediv_nonneg np_mul_nonneg foldl_nonneg discount_nonneg_or_nan
            zero_nonneg payoffs_nonneg assms(1) d)
    with sq Inr show ?thesis by (simp add: mcBScall_loop_fold)
  qed
qed

lemma vect_price_nonneg:
  assumes "exp_like P" "valid_plan P"
  shows "case mcBScall_vect P S K sgm r T n g of
           Inl (e, g') \<Rightarrow> True
         | Inr (p, g') \<Rightarrow> nonneg_or_nan p"
proof (cases rule: size_cases [where n = n and P = P])
  case refused
  then show ?thesis by (simp add: mcBScall_vect_refused)
next
  case negative
  then show ?thesis by (simp add: mcBScall_vect_negative)
next
  case drawn
  then have n: "0 \<le> n \<and> n \<le> alloc_limit P" by simp
  show ?thesis
  proof (cases "py_pow2 P sgm")
    case (Inl e)
    with n show ?thesis by (simp add: mcBScall_vect_pow2_error)
  next
    case (Inr sq)
    have "nonneg_or_nan
        (np_mul (discount P r T)
           (np_average P (map (path_payoff P S K sgm r T sq) (stake (nat n) g))))"
      by (intro np_mul_nonneg np_average_nonneg discount_nonneg_or_nan payoffs_nonneg assms)
    with n Inr show ?thesis by (simp add: mcBScall_vect_fold)
  qed
qed

text \<open>
  C8, amended. For every choice of S, K, sigma, r, T, every \<open>n \<ge> 1\<close> and every shock
  sequence, the payoff of each path after \<^verbatim>\<open>payoff*(payoff>0)\<close>, and the price that
  \<^verbatim>\<open>mcBScall_loop\<close> or \<^verbatim>\<open>mcBScall_vect\<close> returns, is never negative: it is nan or a float64
  that is at least 0, plus infinity included. (\<^verbatim>\<open>mcBScall_loop\<close> can also stop with
  OverflowError, \<^verbatim>\<open>mcBScall_vect\<close> with an error.)
\<close>

theorem price_nonnegative_or_nan:
  assumes "exp_like P" "valid_plan P" "1 \<le> n"
  shows "nonneg_or_nan (path_payoff P S K sgm r T sq w)
         \<and> (case mcBScall_loop P S K sgm r T n g of
               Inl (e, g') \<Rightarrow> e = OverflowError
             | Inr (p, g') \<Rightarrow> nonneg_or_nan p)
         \<and> (case mcBScall_vect P S K sgm r T n g of
               Inl (e, g') \<Rightarrow> True
             | Inr (p, g') \<Rightarrow> nonneg_or_nan p)"
  using assms by (intro conjI path_payoff_nonneg loop_price_nonneg vect_price_nonneg)

subsection \<open>The price and the strike\<close>

lemma np_add_reduce_ge:
  assumes "valid_plan P" "list_all2 ge_or_nan xs ys"
  shows "ge_or_nan (np_add_reduce P xs) (np_add_reduce P ys)"
proof -
  from assms(2) have len: "length xs = length ys" by (rule list_all2_lengthD)
  show ?thesis
  proof (cases "xs = []")
    case True
    with len show ?thesis by (simp add: np_add_reduce_def ge_or_nan_refl)
  next
    case False
    with len have "ys \<noteq> []" by auto
    with False len assms show ?thesis
      by (simp add: np_add_reduce_def tree_sum_ge plan_in_range)
  qed
qed

lemma np_average_ge:
  assumes "valid_plan P" "list_all2 ge_or_nan xs ys"
  shows "ge_or_nan (np_average P xs) (np_average P ys)"
proof -
  from assms(2) have len: "length xs = length ys" by (rule list_all2_lengthD)
  show ?thesis
  proof (cases "xs = []")
    case True
    with len show ?thesis by (simp add: ge_or_nan_refl)
  next
    case False
    then have "1 \<le> real (length xs)" by (cases xs) simp_all
    then have "np_le (Fin 1) (round64 (real (length xs)))" by (rule round64_ge_one)
    then show ?thesis
      unfolding np_average_def len [symmetric]
      by (intro np_truediv_ge np_add_reduce_ge assms)
  qed
qed

lemma same_error_or_ge_refl: "same_error_or_ge a a"
  by (cases a) (auto simp: same_error_or_ge_def ge_or_nan_refl)

lemma loop_strike:
  assumes "K1 \<le> K2" "exp_like P"
  shows "same_error_or_ge (mcBScall_loop P S K1 sgm r T n g) (mcBScall_loop P S K2 sgm r T n g)"
proof (cases "1 \<le> n")
  case False
  then have "mcBScall_loop P S K1 sgm r T n g = mcBScall_loop P S K2 sgm r T n g"
    by (simp add: mcBScall_loop_nonpositive)
  then show ?thesis by (simp add: same_error_or_ge_refl)
next
  case n: True
  show ?thesis
  proof (cases "py_pow2 P sgm")
    case (Inl e)
    with n show ?thesis by (simp add: mcBScall_loop_pow2_error same_error_or_ge_def)
  next
    case sq: (Inr sq)
    show ?thesis
    proof (cases "py_float_of_int n")
      case (Inl e)
      with sq show ?thesis by (simp add: mcBScall_loop_int_error same_error_or_ge_def)
    next
      case (Inr d)
      with n have "1 \<le> d" by (simp add: py_float_of_int_pos)
      then have d: "np_le (Fin 1) (Fin d)" by simp
      let ?pay = "\<lambda>K. map (path_payoff P S K sgm r T sq) (stake (nat n) g)"
      have "ge_or_nan
          (np_truediv (np_mul (discount P r T) (foldl np_add (Fin 0) (?pay K1))) (Fin d))
          (np_truediv (np_mul (discount P r T) (foldl np_add (Fin 0) (?pay K2))) (Fin d))"
        by (intro np_truediv_ge np_mul_ge foldl_ge payoffs_strike_ge ge_or_nan_refl
              discount_nonneg assms d)
      with sq Inr show ?thesis by (simp add: mcBScall_loop_fold same_error_or_ge_def)
    qed
  qed
qed

lemma vect_strike:
  assumes "K1 \<le> K2" "exp_like P" "valid_plan P"
  shows "same_error_or_ge (mcBScall_vect P S K1 sgm r T n g) (mcBScall_vect P S K2 sgm r T n g)"
proof (cases rule: size_cases [where n = n and P = P])
  case refused
  then show ?thesis by (simp add: mcBScall_vect_refused same_error_or_ge_def)
next
  case negative
  then show ?thesis by (simp add: mcBScall_vect_negative same_error_or_ge_def)
next
  case drawn
  then have n: "0 \<le> n \<and> n \<le> alloc_limit P" by simp
  show ?thesis
  proof (cases "py_pow2 P sgm")
    case (Inl e)
    with n show ?thesis by (simp add: mcBScall_vect_pow2_error same_error_or_ge_def)
  next
    case (Inr sq)
    let ?pay = "\<lambda>K. map (path_payoff P S K sgm r T sq) (stake (nat n) g)"
    have "ge_or_nan (np_mul (discount P r T) (np_average P (?pay K1)))
                    (np_mul (discount P r T) (np_average P (?pay K2)))"
      by (intro np_mul_ge np_average_ge payoffs_strike_ge discount_nonneg assms)
    with n Inr show ?thesis by (simp add: mcBScall_vect_fold same_error_or_ge_def)
  qed
qed

text \<open>
  C9, amended. For a fixed generator state, so a fixed shock sequence, and fixed S, sigma,
  r, T and n, let \<open>K1 \<le> K2\<close>. The two calls either stop with the same error, or both
  return, and unless one of the two prices is nan the price computed with \<open>K1\<close> is at
  least the price computed with \<open>K2\<close>.
\<close>

theorem price_antimono_in_strike:
  assumes "K1 \<le> K2" "exp_like P" "valid_plan P"
  shows "same_error_or_ge (mcBScall_loop P S K1 sgm r T n g) (mcBScall_loop P S K2 sgm r T n g)
         \<and> same_error_or_ge (mcBScall_vect P S K1 sgm r T n g)
                            (mcBScall_vect P S K2 sgm r T n g)"
  using assms by (intro conjI loop_strike vect_strike)

subsection \<open>A path that is not finite\<close>

lemma loop_nonfinite:
  assumes "w \<in> set (stake (nat n) g)" "py_pow2 P sgm = Inr sq"
    "\<not> is_finite (path_payoff P S K sgm r T sq w)" "py_float_of_int n = Inr d"
  shows "\<exists>p. \<not> is_finite p \<and> mcBScall_loop P S K sgm r T n g = Inr (p, sdrop (nat n) g)"
proof -
  let ?xs = "map (path_payoff P S K sgm r T sq) (stake (nat n) g)"
  from assms(1) have "path_payoff P S K sgm r T sq w \<in> set ?xs" by simp
  from foldl_nonfinite [OF this assms(3)]
  have "\<not> is_finite (foldl np_add (Fin 0) ?xs)" .
  then have "\<not> is_finite
      (np_truediv (np_mul (discount P r T) (foldl np_add (Fin 0) ?xs)) (Fin d))"
    by (intro np_truediv_nonfinite np_mul_nonfinite_right)
  with assms(2,4) show ?thesis by (simp add: mcBScall_loop_fold)
qed

lemma vect_nonfinite:
  assumes "w \<in> set (stake (nat n) g)" "py_pow2 P sgm = Inr sq"
    "\<not> is_finite (path_payoff P S K sgm r T sq w)" "n \<le> alloc_limit P" "valid_plan P"
  shows "\<exists>p. \<not> is_finite p \<and> mcBScall_vect P S K sgm r T n g = Inr (p, sdrop (nat n) g)"
proof -
  let ?ws = "stake (nat n) g"
  let ?xs = "map (path_payoff P S K sgm r T sq) ?ws"
  from assms(1) have n: "1 \<le> nat n" "0 \<le> n"
    by (cases "nat n"; simp)+
  from assms(1) obtain i where i: "i < nat n" "?ws ! i = w"
    by (auto simp: in_set_conv_nth)
  then have xi: "\<not> is_finite (?xs ! i)" using assms(3) by simp
  from assms(5) n(1) have "set (leaves (reduce_plan P (nat n))) = {..<nat n}"
    by (simp add: valid_plan_def)
  with i(1) have "i \<in> set (leaves (reduce_plan P (length ?xs)))" by simp
  from tree_sum_nonfinite [OF this xi] n(1)
  have "\<not> is_finite (np_add_reduce P ?xs)"
    by (auto simp: np_add_reduce_def)
  then have "\<not> is_finite (np_mul (discount P r T) (np_average P ?xs))"
    unfolding np_average_def by (intro np_mul_nonfinite_right np_truediv_nonfinite)
  with assms(2,4) n(2) show ?thesis by (simp add: mcBScall_vect_fold)
qed

text \<open>
  C7, amended. The code has no numeric error and no chunks. When a call raises no error
  (\<^verbatim>\<open>sgm**2\<close> is in range, \<open>n\<close> converts to a float, the array can be allocated) and the
  evaluation of any of its \<open>n\<close> paths gives a value that is not finite (an infinity or
  nan), both functions still draw all \<open>n\<close> shocks and return, and the price they return
  is not finite: the value propagates through the sum, the discounting and the division.
\<close>

theorem nonfinite_path_gives_nonfinite_price:
  assumes "w \<in> set (stake (nat n) g)" "py_pow2 P sgm = Inr sq"
    "\<not> is_finite (path_payoff P S K sgm r T sq w)"
    "py_float_of_int n = Inr d" "n \<le> alloc_limit P" "valid_plan P"
  shows "(\<exists>p. \<not> is_finite p \<and> mcBScall_loop P S K sgm r T n g = Inr (p, sdrop (nat n) g))
         \<and> (\<exists>p. \<not> is_finite p \<and> mcBScall_vect P S K sgm r T n g = Inr (p, sdrop (nat n) g))"
  using assms by (intro conjI loop_nonfinite vect_nonfinite)

subsection \<open>No volatility\<close>







subsection \<open>Examples\<close>

lemma float_of_two: "py_float_of_int 2 = Inr 2"
  using py_float_of_int_small [of 2] by simp

lemma float_of_minus_one: "py_float_of_int (- 1) = Inr (- 1)"
  using py_float_of_int_small [of "- 1"] by simp

lemma float_of_minus_seven: "py_float_of_int (- 7) = Inr (- 7)"
  using py_float_of_int_small [of "- 7"] by simp



lemma discount_unit: "discount float64_platform 0 1 = Fin 1"
  by (simp add: float64_eval)

lemma discount_overflow: "discount float64_platform (- 2000) 1 = PInf"
  by (simp add: float64_eval)


text \<open>
  C8 does not hold as stated. With \<open>S = 100\<close>, \<open>K = 90\<close>, sigma = 0, \<open>r = 2000\<close>,
  \<open>T = 1\<close> and one path the price is nan, and nan is not at least 0.
\<close>

theorem price_can_be_nan_counterexample:
  "mcBScall_loop float64_platform 100 90 0 2000 1 1 (3 ## sconst 4) = Inr (NaN, sconst 4)
   \<and> mcBScall_vect float64_platform 100 90 0 2000 1 1 (3 ## sconst 4) = Inr (NaN, sconst 4)
   \<and> \<not> np_le (Fin 0) NaN"
  by (simp add: loop_overflow_2000 vect_overflow_2000)

text \<open>
  C9 does not hold as stated. With \<open>S = 100\<close>, sigma = 0, \<open>r = 2000\<close>, \<open>T = 1\<close> and one path
  the price is nan for the strike 105 and for the strike 110, and nan is not at least nan.
\<close>

theorem nan_prices_are_not_ordered_counterexample:
  "mcBScall_loop float64_platform 100 105 0 2000 1 1 (3 ## sconst 4) = Inr (NaN, sconst 4)
   \<and> mcBScall_loop float64_platform 100 110 0 2000 1 1 (3 ## sconst 4) = Inr (NaN, sconst 4)
   \<and> mcBScall_vect float64_platform 100 105 0 2000 1 1 (3 ## sconst 4) = Inr (NaN, sconst 4)
   \<and> mcBScall_vect float64_platform 100 110 0 2000 1 1 (3 ## sconst 4) = Inr (NaN, sconst 4)
   \<and> \<not> np_le NaN NaN"
  by (simp add: loop_overflow_2000 vect_overflow_2000)

text \<open>
  C7 does not hold as stated. With \<open>S = 100\<close>, \<open>K = 95\<close>, sigma = 0, \<open>r = 2000\<close> and
  \<open>T = 1\<close> the exponential overflows: the payoff of the path is infinity, and both
  functions return (the price nan); no error is raised and nothing is discarded.
\<close>

theorem overflow_is_returned_counterexample:
  "path_payoff float64_platform 100 95 0 2000 1 0 7 = PInf
   \<and> mcBScall_loop float64_platform 100 95 0 2000 1 1 (7 ## sconst 1) = Inr (NaN, sconst 1)
   \<and> mcBScall_vect float64_platform 100 95 0 2000 1 1 (7 ## sconst 1) = Inr (NaN, sconst 1)"
  by (simp add: loop_overflow_2000 vect_overflow_2000 path_overflow_2000)

text \<open>
  C10 does not hold as stated. For \<open>n = 0\<close> the function returns nan: the division does
  not fail. For \<open>n = -1\<close> with \<open>r = -2000\<close> and \<open>T = 1\<close> it returns nan, not 0.
\<close>

theorem zero_count_returns_nan_counterexample:
  "mcBScall_loop float64_platform 100 110 (1/2) (1/32) (3/2) 0 (3 ## sconst 5)
     = Inr (NaN, 3 ## sconst 5)
   \<and> mcBScall_loop float64_platform 100 110 0 (- 2000) 1 (- 1) (3 ## sconst 5)
     = Inr (NaN, 3 ## sconst 5)"
  by (simp add: mcBScall_loop_zero [OF float64_platform_exp_like]
      mcBScall_loop_negative [OF float64_platform_exp_like _ float_of_minus_one]
      discount_overflow)


theorem loop_with_nonpositive_count_witness:
  "for_range float64_platform 100 110 (1/2) 0 1 (nat 0) (Fin 0) (3 ## sconst 5)
     = Inr (Fin 0, 3 ## sconst 5)
   \<and> mcBScall_loop float64_platform 100 110 (1/2) 0 1 0 (3 ## sconst 5)
     = Inr (NaN, 3 ## sconst 5)
   \<and> mcBScall_loop float64_platform 100 110 (1/2) 0 1 (- 7) (3 ## sconst 5)
     = Inr (Fin 0, 3 ## sconst 5)"
  using loop_with_nonpositive_count
          [OF float64_platform_exp_like, of 0 100 110 "1/2" 0 1 "3 ## sconst 5"]
        loop_with_nonpositive_count
          [OF float64_platform_exp_like, of "- 7" 100 110 "1/2" 0 1 "3 ## sconst 5"]
  by (simp add: float_of_minus_seven discount_unit)

theorem price_nonnegative_or_nan_witness:
  "nonneg_or_nan (path_payoff float64_platform 100 90 0 0 1 0 3)
   \<and> (case mcBScall_loop float64_platform 100 90 0 0 1 2 (3 ## 4 ## sconst 5) of
         Inl (e, g') \<Rightarrow> e = OverflowError
       | Inr (p, g') \<Rightarrow> nonneg_or_nan p)
   \<and> (case mcBScall_vect float64_platform 100 90 0 0 1 2 (3 ## 4 ## sconst 5) of
         Inl (e, g') \<Rightarrow> True
       | Inr (p, g') \<Rightarrow> nonneg_or_nan p)"
  by (rule price_nonnegative_or_nan
        [OF float64_platform_exp_like float64_platform_valid_plan]) simp

theorem price_antimono_in_strike_witness:
  "same_error_or_ge
     (mcBScall_loop float64_platform 100 90 0 0 1 2 (3 ## 4 ## sconst 5))
     (mcBScall_loop float64_platform 100 95 0 0 1 2 (3 ## 4 ## sconst 5))
   \<and> same_error_or_ge
     (mcBScall_vect float64_platform 100 90 0 0 1 2 (3 ## 4 ## sconst 5))
     (mcBScall_vect float64_platform 100 95 0 0 1 2 (3 ## 4 ## sconst 5))"
  by (rule price_antimono_in_strike
        [OF _ float64_platform_exp_like float64_platform_valid_plan]) simp

lemma mixed_payoffs:
  "path_payoff float64_platform 100 100 1 (1/2) 1 1 0 = Fin 0"
  "path_payoff float64_platform 100 100 1 (1/2) 1 1 2000 = PInf"
  by (simp_all add: float64_eval)

theorem nonfinite_path_gives_nonfinite_price_witness:
  "(\<exists>p. \<not> is_finite p
       \<and> mcBScall_loop float64_platform 100 100 1 (1/2) 1 2 (0 ## 2000 ## sconst 1)
           = Inr (p, sconst 1))
   \<and> (\<exists>p. \<not> is_finite p
       \<and> mcBScall_vect float64_platform 100 100 1 (1/2) 1 2 (0 ## 2000 ## sconst 1)
           = Inr (p, sconst 1))"
  using nonfinite_path_gives_nonfinite_price
          [of 2000 2 "0 ## 2000 ## sconst 1" float64_platform 1 1 100 100 "1/2" 1 2,
           OF _ pow2_one _ float_of_two _ float64_platform_valid_plan]
  by (simp add: mixed_payoffs numeral_2_eq_2 float64_platform_alloc_limit)

end
